theory Spec2Isabelle
  imports Complex_Main "HOL-Library.Sublist"
begin

section \<open>The UrbanSound8K audio-classifier notebook\<close>

text \<open>
  A shallow embedding of the code cells of \<^verbatim>\<open>doc/OldFiles/audio_classifier_tutorial.ipynb\<close>:
  the dataset wrapper \<^verbatim>\<open>UrbanSoundDataset\<close>, the accuracy report of \<^verbatim>\<open>test\<close> and the
  epoch loop with its learning-rate scheduler.
\<close>

subsection \<open>Errors and values\<close>

text \<open>
  The exceptions the modelled code can raise. \<^verbatim>\<open>LoadError\<close> stands for whatever
  \<^verbatim>\<open>torchaudio.load\<close> raises on a missing or unreadable file, \<^verbatim>\<open>RuntimeError\<close> for the
  shape mismatch of a tensor slice assignment.
\<close>

datatype error = IndexError | TypeError | LoadError | RuntimeError | ZeroDivisionError

text \<open>
  A value read from a cell of the metadata table, or an element of the folder list:
  an integer or a string. Python's \<^verbatim>\<open>==\<close> on these is structural equality (an integer never
  equals a string). Floating-point cells are outside the model.
\<close>

datatype cell = CInt int | CStr string

text \<open>\<^verbatim>\<open>str(x)\<close>: a string is returned as it is, an integer in decimal.\<close>

fun str_nat :: "nat \<Rightarrow> string" where
  "str_nat n = (if n < 10 then [''0123456789'' ! n]
                else str_nat (n div 10) @ [''0123456789'' ! (n mod 10)])"

declare str_nat.simps [simp del]

definition str_int :: "int \<Rightarrow> string" where
  "str_int n = (if n < 0 then CHR ''-'' # str_nat (nat (- n)) else str_nat (nat n))"

fun str :: "cell \<Rightarrow> string" where
  "str (CInt n) = str_int n"
| "str (CStr s) = s"

text \<open>
  Python list indexing \<^verbatim>\<open>xs[index]\<close>: a negative index counts from the end, an index out
  of range raises \<^verbatim>\<open>IndexError\<close>.
\<close>

definition getitem_list :: "'a list \<Rightarrow> int \<Rightarrow> error + 'a" where
  "getitem_list xs index =
     (if 0 \<le> index \<and> index < int (length xs) then Inr (xs ! nat index)
      else if index < 0 \<and> - int (length xs) \<le> index
        then Inr (xs ! nat (int (length xs) + index))
      else Inl IndexError)"

subsection \<open>The metadata table\<close>

text \<open>
  \<^verbatim>\<open>csvData = pd.read_csv(csv_path)\<close>: the parsed table is a list of rows, each a list of
  cells. \<^verbatim>\<open>csvData.iloc[i, j]\<close> with non-negative \<^verbatim>\<open>i\<close>, \<^verbatim>\<open>j\<close> reads the cell at row
  \<^verbatim>\<open>i\<close>, column \<^verbatim>\<open>j\<close> and raises \<^verbatim>\<open>IndexError\<close> when either is out of bounds.
\<close>

type_synonym DataFrame = "cell list list"

definition iloc :: "DataFrame \<Rightarrow> nat \<Rightarrow> nat \<Rightarrow> error + cell" where
  "iloc csvData i j =
     (if i < length csvData \<and> j < length (csvData ! i) then Inr (csvData ! i ! j)
      else Inl IndexError)"

subsection \<open>UrbanSoundDataset\<close>

text \<open>
  The fields of the wrapper. \<^verbatim>\<open>mixer\<close> is the transform object
  \<^verbatim>\<open>torchaudio.transforms.DownmixMono()\<close>, a function from the loaded tensor (type \<open>'s\<close>)
  to a one-channel tensor of shape \<^verbatim>\<open>[L, 1]\<close>, kept as the list of its \<^verbatim>\<open>L\<close> values
  (type \<open>'a\<close>).
\<close>

record ('s, 'a) UrbanSoundDataset =
  file_names :: "cell list"
  labels :: "cell list"
  folders :: "cell list"
  file_path :: string
  mixer :: "'s \<Rightarrow> 'a list"
  folderList :: "cell list"

text \<open>
  The loop of \<^verbatim>\<open>__init__\<close> over \<^verbatim>\<open>range(0, len(csvData))\<close>; the accumulator holds
  \<^verbatim>\<open>self.file_names\<close>, \<^verbatim>\<open>self.labels\<close> and \<^verbatim>\<open>self.folders\<close>.
\<close>

fun init_loop ::
  "DataFrame \<Rightarrow> cell list \<Rightarrow> nat list \<Rightarrow> cell list \<times> cell list \<times> cell list
     \<Rightarrow> error + (cell list \<times> cell list \<times> cell list)" where
  "init_loop csvData fl [] acc = Inr acc"
| "init_loop csvData fl (i # rest) (fns, lbs, fds) =
     (case iloc csvData i 5 of
        Inl e \<Rightarrow> Inl e
      | Inr c \<Rightarrow>
          if c \<in> set fl then
            (case iloc csvData i 0 of
               Inl e \<Rightarrow> Inl e
             | Inr fn \<Rightarrow>
                 (case iloc csvData i 6 of
                    Inl e \<Rightarrow> Inl e
                  | Inr lb \<Rightarrow>
                      (case iloc csvData i 5 of
                         Inl e \<Rightarrow> Inl e
                       | Inr fd \<Rightarrow>
                           init_loop csvData fl rest (fns @ [fn], lbs @ [lb], fds @ [fd]))))
          else init_loop csvData fl rest (fns, lbs, fds))"

text \<open>
  \<^verbatim>\<open>__init__(self, csv_path, file_path, folderList)\<close>. The table read from \<^verbatim>\<open>csv_path\<close>
  and the library's \<^verbatim>\<open>DownmixMono()\<close> object are parameters.
\<close>

definition init ::
  "DataFrame \<Rightarrow> string \<Rightarrow> cell list \<Rightarrow> ('s \<Rightarrow> 'a list) \<Rightarrow> error + ('s, 'a) UrbanSoundDataset" where
  "init csvData fp fl DownmixMono =
     (case init_loop csvData fl [0 ..< length csvData] ([], [], []) of
        Inl e \<Rightarrow> Inl e
      | Inr (fns, lbs, fds) \<Rightarrow>
          Inr \<lparr> file_names = fns, labels = lbs, folders = fds, file_path = fp,
                mixer = DownmixMono, folderList = fl \<rparr>)"

text \<open>\<^verbatim>\<open>__len__\<close>: the count, and the wrapper after the call (nothing is assigned).\<close>

definition len :: "('s, 'a) UrbanSoundDataset \<Rightarrow> nat \<times> ('s, 'a) UrbanSoundDataset" where
  "len self = (length (file_names self), self)"

subsection \<open>Sample retrieval\<close>

text \<open>
  Slice assignment \<^verbatim>\<open>dst[:n] = src\<close> on tensors of shape \<^verbatim>\<open>[L, 1]\<close>: the slice selects the
  first \<open>min n L\<close> rows; the source must have as many rows, or a single row that is broadcast,
  otherwise the library raises a \<^verbatim>\<open>RuntimeError\<close>. The result is the updated \<^verbatim>\<open>dst\<close>.
\<close>

definition assign_rows :: "nat \<Rightarrow> 'a list \<Rightarrow> 'a list \<Rightarrow> error + 'a list" where
  "assign_rows n src dst =
     (let k = min n (length dst)
      in if length src = k then Inr (src @ drop k dst)
         else if length src = 1 then Inr (replicate k (hd src) @ drop k dst)
         else Inl RuntimeError)"

text \<open>The strided slice \<^verbatim>\<open>xs[::k]\<close> for a positive step: the rows at 0, k, 2k, ...\<close>

fun slice_step :: "nat \<Rightarrow> 'a list \<Rightarrow> 'a list" where
  "slice_step k [] = []"
| "slice_step k (x # xs) = x # slice_step k (drop (k - 1) xs)"

text \<open>
  The formatting steps of \<^verbatim>\<open>__getitem__\<close> from \<^verbatim>\<open>tempData = torch.zeros([160000, 1])\<close> to
  \<^verbatim>\<open>soundFormatted.permute(1, 0)\<close>. The argument is the one-channel tensor
  \<^verbatim>\<open>soundData\<close>, whose \<^verbatim>\<open>numel()\<close> is its length; \<^verbatim>\<open>tempData[:] = ...\<close> assigns all
  160000 rows; the result has shape \<^verbatim>\<open>[1, 32000]\<close>, a list holding one row.
\<close>

definition format_sound :: "'a::zero list \<Rightarrow> error + 'a list list" where
  "format_sound soundData =
     (let tempData = replicate 160000 0
      in case (if length soundData < 160000
               then assign_rows (length soundData) soundData tempData
               else assign_rows 160000 (take 160000 soundData) tempData) of
           Inl e \<Rightarrow> Inl e
         | Inr tempData' \<Rightarrow>
             (case assign_rows 32000 (slice_step 5 tempData') (replicate 32000 0) of
                Inl e \<Rightarrow> Inl e
              | Inr soundFormatted \<Rightarrow> Inr [soundFormatted]))"

text \<open>
  \<^verbatim>\<open>__getitem__(self, index)\<close>. \<^verbatim>\<open>load\<close> stands for \<^verbatim>\<open>torchaudio.load\<close> on the current
  file system: it maps a path to the pair of the decoded tensor and the sampling frequency,
  or fails. The result is the returned pair (or the exception) together with the wrapper
  after the call; the method assigns to no field.
\<close>

definition getitem ::
  "('s, 'a::zero) UrbanSoundDataset \<Rightarrow> (string \<Rightarrow> error + 's \<times> nat) \<Rightarrow> int
     \<Rightarrow> (error + 'a list list \<times> cell) \<times> ('s, 'a) UrbanSoundDataset" where
  "getitem self load index =
     ((case getitem_list (folders self) index of
         Inl e \<Rightarrow> Inl e
       | Inr fd \<Rightarrow>
           (case getitem_list (file_names self) index of
              Inl e \<Rightarrow> Inl e
            | Inr (CInt k) \<Rightarrow> Inl TypeError
            | Inr (CStr name) \<Rightarrow>
                (case load (file_path self @ ''fold'' @ str fd @ ''/'' @ name) of
                   Inl e \<Rightarrow> Inl e
                 | Inr sound \<Rightarrow>
                     (case format_sound (mixer self (fst sound)) of
                        Inl e \<Rightarrow> Inl e
                      | Inr soundFormatted \<Rightarrow>
                          (case getitem_list (labels self) index of
                             Inl e \<Rightarrow> Inl e
                           | Inr lb \<Rightarrow> Inr (soundFormatted, lb)))))),
      self)"

text \<open>
  The spec's words for the input of the decimation, ``a fixed-length prefix of 160000
  samples (zero-padding if shorter)'', written out on their own to be compared with
  what \<open>format_sound\<close> computes.
\<close>

definition spec_padded_prefix :: "'a::zero list \<Rightarrow> 'a list" where
  "spec_padded_prefix soundData =
     (if length soundData < 160000
      then soundData @ replicate (160000 - length soundData) 0
      else take 160000 soundData)"

subsection \<open>Evaluation\<close>

text \<open>
  The loop of \<^verbatim>\<open>test\<close> over the batches of \<^verbatim>\<open>test_loader\<close>. A batch is the list of its
  (data, target) pairs; \<^verbatim>\<open>predict\<close> is the model followed by \<^verbatim>\<open>output.max(2)[1]\<close>, the
  index of the largest log-probability.
\<close>

fun test_loop :: "('d \<Rightarrow> nat) \<Rightarrow> ('d \<times> nat) list list \<Rightarrow> nat \<Rightarrow> nat" where
  "test_loop predict [] correct = correct"
| "test_loop predict (batch # rest) correct =
     test_loop predict rest
       (correct + length (filter (\<lambda>(data, target). predict data = target) batch))"

text \<open>
  \<^verbatim>\<open>test(model, epoch)\<close>: the three arguments of the printed report, namely \<^verbatim>\<open>correct\<close>,
  \<^verbatim>\<open>len(test_loader.dataset)\<close> and \<^verbatim>\<open>100. * correct / len(test_loader.dataset)\<close>. Python's
  division raises \<^verbatim>\<open>ZeroDivisionError\<close> on a zero divisor, before anything is printed.
  The quotient is taken over the reals.
\<close>

definition test ::
  "('d \<Rightarrow> nat) \<Rightarrow> ('d \<times> nat) list list \<Rightarrow> nat \<Rightarrow> error + nat \<times> nat \<times> real" where
  "test predict test_loader dataset_len =
     (let correct = test_loop predict test_loader 0
      in if dataset_len = 0 then Inl ZeroDivisionError
         else Inr (correct, dataset_len, 100 * real correct / real dataset_len))"

subsection \<open>The epoch loop and its scheduler\<close>












section \<open>Properties\<close>

subsection \<open>Construction of the wrapper\<close>

lemma init_loop_Inr:
  "init_loop df fl idx (fns, lbs, fds) = Inr (fns', lbs', fds') \<Longrightarrow>
     fns' = fns @ map (\<lambda>i. df ! i ! 0) (filter (\<lambda>i. df ! i ! 5 \<in> set fl) idx) \<and>
     lbs' = lbs @ map (\<lambda>i. df ! i ! 6) (filter (\<lambda>i. df ! i ! 5 \<in> set fl) idx) \<and>
     fds' = fds @ map (\<lambda>i. df ! i ! 5) (filter (\<lambda>i. df ! i ! 5 \<in> set fl) idx)"
proof (induction idx arbitrary: fns lbs fds)
  case Nil
  then show ?case by simp
next
  case (Cons i rest)
  show ?case
    using Cons.prems
    by (auto simp: iloc_def split: sum.splits if_splits dest!: Cons.IH)
qed

lemma init_loop_total:
  "\<forall>i \<in> set idx. i < length df \<and> 7 \<le> length (df ! i) \<Longrightarrow>
     \<exists>r. init_loop df fl idx (fns, lbs, fds) = Inr r"
proof (induction idx arbitrary: fns lbs fds)
  case Nil
  then show ?case by simp
next
  case (Cons i rest)
  then show ?case
    by (auto simp: iloc_def split: sum.splits if_splits)
qed

lemma init_loop_bounds:
  "init_loop df fl idx (fns, lbs, fds) = Inr r \<Longrightarrow> i \<in> set idx \<Longrightarrow>
     i < length df \<and> 5 < length (df ! i) \<and> (df ! i ! 5 \<in> set fl \<longrightarrow> 6 < length (df ! i))"
proof (induction idx arbitrary: fns lbs fds)
  case Nil
  then show ?case by simp
next
  case (Cons j rest)
  show ?case
    using Cons.prems
    by (auto simp: iloc_def split: sum.splits if_splits dest: Cons.IH)
qed

lemma filter_rows:
  "map (\<lambda>i. f (df ! i)) (filter (\<lambda>i. P (df ! i)) [0 ..< length df]) = map f (filter P df)"
proof -
  have "map f (filter P df) = map f (filter P (map (\<lambda>i. df ! i) [0 ..< length df]))"
    by (simp add: map_nth)
  also have "\<dots> = map (\<lambda>i. f (df ! i)) (filter (\<lambda>i. P (df ! i)) [0 ..< length df])"
    by (simp add: filter_map comp_def)
  finally show ?thesis by simp
qed

lemma init_Inr:
  assumes "init df fp fl mix = Inr ds"
  shows "ds = \<lparr> file_names = map (\<lambda>row. row ! 0) (filter (\<lambda>row. row ! 5 \<in> set fl) df),
                labels = map (\<lambda>row. row ! 6) (filter (\<lambda>row. row ! 5 \<in> set fl) df),
                folders = map (\<lambda>row. row ! 5) (filter (\<lambda>row. row ! 5 \<in> set fl) df),
                file_path = fp, mixer = mix, folderList = fl \<rparr>"
proof -
  from assms obtain fns lbs fds where
    loop: "init_loop df fl [0 ..< length df] ([], [], []) = Inr (fns, lbs, fds)" and
    ds: "ds = \<lparr> file_names = fns, labels = lbs, folders = fds, file_path = fp,
                mixer = mix, folderList = fl \<rparr>"
    by (auto simp: init_def split: sum.splits)
  note rows = filter_rows [of "\<lambda>row. row ! 0" df "\<lambda>row. row ! 5 \<in> set fl"]
    filter_rows [of "\<lambda>row. row ! 6" df "\<lambda>row. row ! 5 \<in> set fl"]
    filter_rows [of "\<lambda>row. row ! 5" df "\<lambda>row. row ! 5 \<in> set fl"]
  from init_loop_Inr [OF loop]
  have "fns = map (\<lambda>row. row ! 0) (filter (\<lambda>row. row ! 5 \<in> set fl) df)"
    and "lbs = map (\<lambda>row. row ! 6) (filter (\<lambda>row. row ! 5 \<in> set fl) df)"
    and "fds = map (\<lambda>row. row ! 5) (filter (\<lambda>row. row ! 5 \<in> set fl) df)"
    using rows by simp_all
  with ds show ?thesis by simp
qed

lemma init_rows:
  assumes "init df fp fl mix = Inr ds" and "row \<in> set df"
  shows "5 < length row \<and> (row ! 5 \<in> set fl \<longrightarrow> 6 < length row)"
proof -
  from assms(1) obtain r where
    loop: "init_loop df fl [0 ..< length df] ([], [], []) = Inr r"
    by (auto simp: init_def split: sum.splits)
  from assms(2) obtain i where i: "i < length df" "row = df ! i"
    by (auto simp: in_set_conv_nth)
  from init_loop_bounds [OF loop, of i] i show ?thesis by simp
qed

lemma init_total:
  assumes "\<forall>row \<in> set df. 7 \<le> length row"
  shows "\<exists>ds. init df fp fl mix = Inr ds"
proof -
  have "\<forall>i \<in> set [0 ..< length df]. i < length df \<and> 7 \<le> length (df ! i)"
    using assms by simp
  from init_loop_total [OF this]
  obtain r where "init_loop df fl [0 ..< length df] ([], [], []) = Inr r"
    by blast
  then show ?thesis
    by (cases r) (auto simp: init_def)
qed

subsection \<open>Formatting a recording\<close>

lemma length_slice_step: "length (slice_step 5 xs) = (length xs + 4) div 5"
proof (induction xs rule: length_induct)
  case (1 xs)
  show ?case
  proof (cases xs)
    case Nil
    then show ?thesis by simp
  next
    case (Cons x ys)
    have "length (drop 4 ys) < length xs" using Cons by simp
    with 1 have "length (slice_step 5 (drop 4 ys)) = (length (drop 4 ys) + 4) div 5"
      by blast
    with Cons show ?thesis by simp
  qed
qed

lemma nth_slice_step:
  "0 < k \<Longrightarrow> i < length (slice_step k xs) \<Longrightarrow> slice_step k xs ! i = xs ! (k * i)"
proof (induction k xs arbitrary: i rule: slice_step.induct)
  case (1 k)
  then show ?case by simp
next
  case (2 k x xs)
  show ?case
  proof (cases i)
    case 0
    then show ?thesis by simp
  next
    case (Suc j)
    with "2.prems" have j: "j < length (slice_step k (drop (k - 1) xs))" by simp
    then have ne: "drop (k - 1) xs \<noteq> []" by auto
    from "2.IH" [OF "2.prems"(1) j]
    have "slice_step k (drop (k - 1) xs) ! j = drop (k - 1) xs ! (k * j)" .
    also have "\<dots> = xs ! (k - 1 + k * j)" using ne by (simp add: nth_drop)
    also have "\<dots> = (x # xs) ! (k * i)" using Suc "2.prems"(1)
      by (cases k) simp_all
    finally show ?thesis using Suc by simp
  qed
qed

lemma length_spec_padded_prefix: "length (spec_padded_prefix sd) = 160000"
  by (simp add: spec_padded_prefix_def)

lemma format_sound_eq: "format_sound sd = Inr [slice_step 5 (spec_padded_prefix sd)]"
  by (simp add: format_sound_def spec_padded_prefix_def assign_rows_def Let_def
      length_slice_step)

subsection \<open>Retrieval on a constructed wrapper\<close>

lemma getitem_list_nat:
  "0 \<le> index \<Longrightarrow> index < int (length xs) \<Longrightarrow> getitem_list xs index = Inr (xs ! nat index)"
  by (simp add: getitem_list_def)

lemma init_lengths:
  assumes "init df fp fl mix = Inr ds"
  shows "length (labels ds) = length (file_names ds)"
    and "length (folders ds) = length (file_names ds)"
    and "file_path ds = fp" and "mixer ds = mix" and "folderList ds = fl"
  using init_Inr [OF assms] by simp_all

lemma getitem_in_range:
  assumes "init df fp fl mix = Inr ds" and "0 \<le> index" and "index < int (fst (len ds))"
  shows "fst (getitem ds load index) =
           (case file_names ds ! nat index of
              CInt k \<Rightarrow> Inl TypeError
            | CStr name \<Rightarrow>
                (case load (file_path ds @ ''fold'' @ str (folders ds ! nat index) @ ''/'' @ name) of
                   Inl e \<Rightarrow> Inl e
                 | Inr sound \<Rightarrow>
                     Inr ([slice_step 5 (spec_padded_prefix (mixer ds (fst sound)))],
                          labels ds ! nat index)))"
proof -
  from assms(3) have n: "index < int (length (file_names ds))"
    by (simp add: len_def)
  note l = init_lengths(1,2) [OF assms(1)]
  have "getitem_list (folders ds) index = Inr (folders ds ! nat index)"
    and "getitem_list (file_names ds) index = Inr (file_names ds ! nat index)"
    and "getitem_list (labels ds) index = Inr (labels ds ! nat index)"
    using assms(2) n l by (simp_all add: getitem_list_nat)
  then show ?thesis
    by (simp add: getitem_def format_sound_eq split: sum.splits cell.splits)
qed

lemma nth_spec_padded_prefix:
  "j < 160000 \<Longrightarrow> spec_padded_prefix sd ! j = (if j < length sd then sd ! j else 0)"
  by (simp add: spec_padded_prefix_def nth_append)

lemma slice_step_replicate: "slice_step 5 (replicate n x) = replicate ((n + 4) div 5) x"
proof (rule nth_equalityI)
  show "length (slice_step 5 (replicate n x)) = length (replicate ((n + 4) div 5) x)"
    by (simp add: length_slice_step)
next
  fix i assume i: "i < length (slice_step 5 (replicate n x))"
  then have "i < (n + 4) div 5" by (simp add: length_slice_step)
  then have "5 * i < n" by arith
  with i show "slice_step 5 (replicate n x) ! i = replicate ((n + 4) div 5) x ! i"
    by (simp add: nth_slice_step length_slice_step)
qed

subsection \<open>One pass of the epoch loop\<close>









subsection \<open>Counting matches\<close>

lemma test_loop_count:
  "test_loop predict bs c = c + length (filter (\<lambda>(data, target). predict data = target) (concat bs))"
  by (induction bs arbitrary: c) simp_all

subsection \<open>A two-row table\<close>

text \<open>
  A table in the column layout of \<^verbatim>\<open>UrbanSound8K.csv\<close> (file name first, fold in column 5,
  class id in column 6) with one row in fold 1 and one in fold 2, restricted to fold 1.
\<close>

lemma str_int_1: "str_int 1 = ''1''"
  by (simp add: str_int_def str_nat.simps)

lemma example_init:
  "init [[CStr ''a.wav'', CInt 7, CInt 0, CInt 4, CInt 1, CInt 1, CInt 3, CStr ''dog_bark''],
         [CStr ''b.wav'', CInt 8, CInt 0, CInt 4, CInt 1, CInt 2, CInt 9, CStr ''street_music'']]
       ''./audio/'' [CInt 1] (id :: int list \<Rightarrow> int list)
     = Inr \<lparr> file_names = [CStr ''a.wav''], labels = [CInt 3], folders = [CInt 1],
             file_path = ''./audio/'', mixer = id, folderList = [CInt 1] \<rparr>"
  by (simp add: init_def iloc_def upt_rec)

section \<open>The claims\<close>

text \<open>
  C1: for every index in range, \<^verbatim>\<open>__getitem__\<close> returns a waveform of exactly 32000
  values whatever the length of the recording: a recording shorter than 160000 samples is
  zero-padded, one of 160000 or more samples is cut to its first 160000, and then every
  fifth value is kept. Here the wrapper is one that \<^verbatim>\<open>__init__\<close> built, the file name at
  the index is a string, the file loads, and \<open>soundData\<close> is the mixed one-channel tensor.
\<close>

theorem getitem_waveform_length:
  assumes "init csvData fp fl mix = Inr ds"
    and "0 \<le> index" and "index < int (fst (len ds))"
    and "file_names ds ! nat index = CStr name"
    and "load (file_path ds @ ''fold'' @ str (folders ds ! nat index) @ ''/'' @ name) = Inr sound"
    and "mixer ds (fst sound) = soundData"
  shows "\<exists>w. fst (getitem ds load index) = Inr ([w], labels ds ! nat index) \<and>
              length w = 32000 \<and>
              (length soundData < 160000 \<longrightarrow>
                 w = slice_step 5 (soundData @ replicate (160000 - length soundData) 0)) \<and>
              (160000 \<le> length soundData \<longrightarrow> w = slice_step 5 (take 160000 soundData))"
proof -
  let ?w = "slice_step 5 (spec_padded_prefix soundData)"
  have "fst (getitem ds load index) = Inr ([?w], labels ds ! nat index)"
    using getitem_in_range [OF assms(1-3), of load] assms(4-6) by simp
  moreover have "length ?w = 32000"
    by (simp add: length_slice_step length_spec_padded_prefix)
  moreover have "length soundData < 160000 \<longrightarrow>
      ?w = slice_step 5 (soundData @ replicate (160000 - length soundData) 0)"
    by (simp add: spec_padded_prefix_def)
  moreover have "160000 \<le> length soundData \<longrightarrow> ?w = slice_step 5 (take 160000 soundData)"
    by (simp add: spec_padded_prefix_def)
  ultimately show ?thesis by blast
qed

theorem getitem_waveform_length_witness:
  "(\<exists>w. fst (getitem \<lparr> file_names = [CStr ''a.wav''], labels = [CInt 3], folders = [CInt 1],
             file_path = ''./audio/'', mixer = (id :: int list \<Rightarrow> int list),
             folderList = [CInt 1] \<rparr>
           (\<lambda>p. if p = ''./audio/fold1/a.wav'' then Inr ([4, -2, 6], 44100) else Inl LoadError) 0)
        = Inr ([w], CInt 3) \<and> length w = 32000) \<and>
   (\<exists>w. fst (getitem \<lparr> file_names = [CStr ''a.wav''], labels = [CInt 3], folders = [CInt 1],
             file_path = ''./audio/'', mixer = (id :: int list \<Rightarrow> int list),
             folderList = [CInt 1] \<rparr>
           (\<lambda>p. if p = ''./audio/fold1/a.wav'' then Inr (replicate 200000 7, 44100)
                else Inl LoadError) 0)
        = Inr ([w], CInt 3) \<and> length w = 32000 \<and>
        w = slice_step 5 (take 160000 (replicate 200000 7)))"
proof -
  let ?ds = "\<lparr> file_names = [CStr ''a.wav''], labels = [CInt 3], folders = [CInt 1],
             file_path = ''./audio/'', mixer = (id :: int list \<Rightarrow> int list),
             folderList = [CInt 1] \<rparr>"
  let ?short = "\<lambda>p. if p = ''./audio/fold1/a.wav'' then Inr ([4, -2, 6 :: int], 44100 :: nat)
                    else Inl LoadError"
  let ?long = "\<lambda>p. if p = ''./audio/fold1/a.wav''
                    then Inr (replicate 200000 (7 :: int), 44100 :: nat) else Inl LoadError"
  have h2: "(0::int) \<le> 0" by simp
  have h3: "0 < int (fst (len ?ds))" by (simp add: len_def)
  have h4: "file_names ?ds ! nat 0 = CStr ''a.wav''" by simp
  have s5: "?short (file_path ?ds @ ''fold'' @ str (folders ?ds ! nat 0) @ ''/'' @ ''a.wav'')
              = Inr ([4, -2, 6], 44100)"
    by (simp add: str_int_1)
  have s6: "mixer ?ds (fst ([4, -2, 6 :: int], 44100 :: nat)) = [4, -2, 6]" by simp
  have l5: "?long (file_path ?ds @ ''fold'' @ str (folders ?ds ! nat 0) @ ''/'' @ ''a.wav'')
              = Inr (replicate 200000 7, 44100)"
    by (simp add: str_int_1)
  have l6: "mixer ?ds (fst (replicate 200000 (7 :: int), 44100 :: nat)) = replicate 200000 7"
    by simp
  have l7: "160000 \<le> length (replicate 200000 (7 :: int))" by simp
  from getitem_waveform_length [where load = ?short and index = 0 and name = "''a.wav''",
      OF example_init h2 h3 h4 s5 s6]
  have a: "\<exists>w. fst (getitem ?ds ?short 0) = Inr ([w], labels ?ds ! nat 0) \<and> length w = 32000"
    by blast
  from getitem_waveform_length [where load = ?long and index = 0 and name = "''a.wav''",
      OF example_init h2 h3 h4 l5 l6] l7
  have b: "\<exists>w. fst (getitem ?ds ?long 0) = Inr ([w], labels ?ds ! nat 0) \<and> length w = 32000 \<and>
      w = slice_step 5 (take 160000 (replicate 200000 7))"
    by blast
  have lb: "labels ?ds ! nat 0 = CInt 3" by simp
  from a b show ?thesis unfolding lb by (intro conjI)
qed

text \<open>
  C3: the count reported by \<^verbatim>\<open>__len__\<close> of a wrapper constructed from a metadata table
  and a folder list is the number of rows of the table whose fold number (column 5) is in
  the folder list.
\<close>

theorem len_counts_matching_rows:
  "init csvData fp fl mix = Inr ds \<Longrightarrow>
     fst (len ds) = length (filter (\<lambda>row. row ! 5 \<in> set fl) csvData)"
  by (drule init_Inr) (simp add: len_def)

theorem len_counts_matching_rows_witness:
  "init [[CStr ''a.wav'', CInt 7, CInt 0, CInt 4, CInt 1, CInt 1, CInt 3, CStr ''dog_bark''],
         [CStr ''b.wav'', CInt 8, CInt 0, CInt 4, CInt 1, CInt 2, CInt 9, CStr ''street_music'']]
       ''./audio/'' [CInt 1] (id :: int list \<Rightarrow> int list)
     = Inr \<lparr> file_names = [CStr ''a.wav''], labels = [CInt 3], folders = [CInt 1],
             file_path = ''./audio/'', mixer = id, folderList = [CInt 1] \<rparr> \<and>
   fst (len \<lparr> file_names = [CStr ''a.wav''], labels = [CInt 3], folders = [CInt 1],
             file_path = ''./audio/'', mixer = (id :: int list \<Rightarrow> int list), folderList = [CInt 1] \<rparr>) = 1"
  using len_counts_matching_rows [OF example_init] example_init by simp

text \<open>
  C2: decimation. Element \<open>i\<close> of the 32000-value output of \<^verbatim>\<open>__getitem__\<close>, for every
  \<open>i < 32000\<close>, is element \<open>5 * i\<close> of the recording after zero-padding or cutting it to
  160000 values: the recording's own value where it has one, zero in the padding. The
  recording is \<open>soundData\<close>, the one-channel tensor that the mixer returns.
\<close>

theorem getitem_decimation:
  assumes "init csvData fp fl mix = Inr ds"
    and "0 \<le> index" and "index < int (fst (len ds))"
    and "file_names ds ! nat index = CStr name"
    and "load (file_path ds @ ''fold'' @ str (folders ds ! nat index) @ ''/'' @ name) = Inr sound"
    and "mixer ds (fst sound) = soundData"
    and "i < 32000"
  shows "\<exists>w. fst (getitem ds load index) = Inr ([w], labels ds ! nat index) \<and>
              length w = 32000 \<and>
              w ! i = spec_padded_prefix soundData ! (5 * i) \<and>
              w ! i = (if 5 * i < length soundData then soundData ! (5 * i) else 0)"
proof -
  let ?w = "slice_step 5 (spec_padded_prefix soundData)"
  have r: "fst (getitem ds load index) = Inr ([?w], labels ds ! nat index)"
    using getitem_in_range [OF assms(1-3), of load] assms(4-6) by simp
  have l: "length ?w = 32000"
    by (simp add: length_slice_step length_spec_padded_prefix)
  with assms(7) have n: "?w ! i = spec_padded_prefix soundData ! (5 * i)"
    by (simp add: nth_slice_step)
  from assms(7) have "5 * i < 160000" by simp
  then have "spec_padded_prefix soundData ! (5 * i) =
      (if 5 * i < length soundData then soundData ! (5 * i) else 0)"
    by (rule nth_spec_padded_prefix)
  with r l n show ?thesis by simp
qed

theorem getitem_decimation_witness:
  "\<exists>w. fst (getitem \<lparr> file_names = [CStr ''a.wav''], labels = [CInt 3], folders = [CInt 1],
             file_path = ''./audio/'', mixer = (id :: int list \<Rightarrow> int list),
             folderList = [CInt 1] \<rparr>
           (\<lambda>p. if p = ''./audio/fold1/a.wav'' then Inr ([4, -2, 6, 1, 0, 9, 3], 44100)
                else Inl LoadError) 0)
        = Inr ([w], CInt 3) \<and> w ! 1 = 9 \<and> w ! 2 = 0"
proof -
  let ?ds = "\<lparr> file_names = [CStr ''a.wav''], labels = [CInt 3], folders = [CInt 1],
             file_path = ''./audio/'', mixer = (id :: int list \<Rightarrow> int list),
             folderList = [CInt 1] \<rparr>"
  let ?load = "\<lambda>p. if p = ''./audio/fold1/a.wav''
                    then Inr ([4, -2, 6, 1, 0, 9, 3 :: int], 44100 :: nat) else Inl LoadError"
  have h2: "(0::int) \<le> 0" by simp
  have h3: "0 < int (fst (len ?ds))" by (simp add: len_def)
  have h4: "file_names ?ds ! nat 0 = CStr ''a.wav''" by simp
  have h5: "?load (file_path ?ds @ ''fold'' @ str (folders ?ds ! nat 0) @ ''/'' @ ''a.wav'')
              = Inr ([4, -2, 6, 1, 0, 9, 3], 44100)"
    by (simp add: str_int_1)
  have h6: "mixer ?ds (fst ([4, -2, 6, 1, 0, 9, 3 :: int], 44100 :: nat)) = [4, -2, 6, 1, 0, 9, 3]"
    by simp
  have i1: "(1::nat) < 32000" and i2: "(2::nat) < 32000" by simp_all
  note a = getitem_decimation [where load = ?load and index = 0 and name = "''a.wav''",
      OF example_init h2 h3 h4 h5 h6 i1]
  note b = getitem_decimation [where load = ?load and index = 0 and name = "''a.wav''",
      OF example_init h2 h3 h4 h5 h6 i2]
  from a b show ?thesis by auto
qed

text \<open>
  C8: for a recording that is all zeros and shorter than 160000 samples,
  \<^verbatim>\<open>__getitem__\<close> returns a waveform of 32000 zeros. The recording is the one-channel
  tensor that the mixer returns for the loaded file, \<open>n\<close> zeros with \<open>n < 160000\<close>.
\<close>

theorem getitem_all_zero:
  fixes ds :: "('s, 'a::zero) UrbanSoundDataset"
  assumes "init csvData fp fl mix = Inr ds"
    and "0 \<le> index" and "index < int (fst (len ds))"
    and "file_names ds ! nat index = CStr name"
    and "load (file_path ds @ ''fold'' @ str (folders ds ! nat index) @ ''/'' @ name) = Inr sound"
    and "mixer ds (fst sound) = replicate n 0"
    and "n < 160000"
  shows "fst (getitem ds load index) = Inr ([replicate 32000 0], labels ds ! nat index)"
proof -
  have "spec_padded_prefix (replicate n (0::'a)) = replicate (n + (160000 - n)) 0"
    using assms(7) unfolding replicate_add by (simp add: spec_padded_prefix_def)
  also have "n + (160000 - n) = 160000" using assms(7) by simp
  finally have "slice_step 5 (spec_padded_prefix (replicate n (0::'a))) = replicate 32000 0"
    by (simp add: slice_step_replicate)
  then show ?thesis
    using getitem_in_range [OF assms(1-3), of load] assms(4-6) by simp
qed

theorem getitem_all_zero_witness:
  "fst (getitem \<lparr> file_names = [CStr ''a.wav''], labels = [CInt 3], folders = [CInt 1],
             file_path = ''./audio/'', mixer = (id :: int list \<Rightarrow> int list),
             folderList = [CInt 1] \<rparr>
           (\<lambda>p. if p = ''./audio/fold1/a.wav'' then Inr ([0, 0, 0], 44100)
                else Inl LoadError) 0)
     = Inr ([replicate 32000 0], CInt 3)"
proof -
  let ?ds = "\<lparr> file_names = [CStr ''a.wav''], labels = [CInt 3], folders = [CInt 1],
             file_path = ''./audio/'', mixer = (id :: int list \<Rightarrow> int list),
             folderList = [CInt 1] \<rparr>"
  let ?load = "\<lambda>p. if p = ''./audio/fold1/a.wav''
                    then Inr ([0, 0, 0 :: int], 44100 :: nat) else Inl LoadError"
  have h2: "(0::int) \<le> 0" by simp
  have h3: "0 < int (fst (len ?ds))" by (simp add: len_def)
  have h4: "file_names ?ds ! nat 0 = CStr ''a.wav''" by simp
  have h5: "?load (file_path ?ds @ ''fold'' @ str (folders ?ds ! nat 0) @ ''/'' @ ''a.wav'')
              = Inr ([0, 0, 0], 44100)"
    by (simp add: str_int_1)
  have h6: "mixer ?ds (fst ([0, 0, 0 :: int], 44100 :: nat)) = replicate 3 0"
    by (simp add: numeral_3_eq_3)
  have h7: "(3::nat) < 160000" by simp
  from getitem_all_zero [where load = ?load and index = 0 and name = "''a.wav''",
      OF example_init h2 h3 h4 h5 h6 h7]
  show ?thesis by simp
qed

text \<open>
  C9: \<^verbatim>\<open>__getitem__\<close> at any index, in range or not, succeeding or raising, leaves the
  wrapper as it was, field by field, and so does \<^verbatim>\<open>__len__\<close>; a retrieval after another
  retrieval returns what it would have returned before it.
\<close>

theorem getitem_frame:
  "snd (getitem ds load index) = ds \<and>
   file_names (snd (getitem ds load index)) = file_names ds \<and>
   labels (snd (getitem ds load index)) = labels ds \<and>
   folders (snd (getitem ds load index)) = folders ds \<and>
   file_path (snd (getitem ds load index)) = file_path ds \<and>
   folderList (snd (getitem ds load index)) = folderList ds \<and>
   snd (len ds) = ds \<and>
   fst (getitem (snd (getitem ds load j)) load index) = fst (getitem ds load index) \<and>
   fst (getitem (snd (len ds)) load index) = fst (getitem ds load index)"
  by (simp add: getitem_def len_def)

text \<open>
  C10: after construction the lists of file names, labels and folder numbers have the
  reported count as their common length, and position \<open>i\<close> of each holds the cell of the
  \<open>i\<close>-th row, in table order, among the rows whose fold is in the folder list. For
  every \<open>i\<close> below the count, retrieval raises no \<^verbatim>\<open>IndexError\<close>: it loads the path made of
  that row's fold and file name and returns the waveform with that row's label (or the
  \<^verbatim>\<open>TypeError\<close> of a file name that is no string, or the error of the load).
\<close>

theorem init_invariant:
  assumes "init csvData fp fl mix = Inr ds"
  shows "let rows = filter (\<lambda>row. row ! 5 \<in> set fl) csvData in
     length (file_names ds) = fst (len ds) \<and>
     length (labels ds) = fst (len ds) \<and>
     length (folders ds) = fst (len ds) \<and>
     fst (len ds) = length rows \<and>
     (\<forall>i < fst (len ds).
        6 < length (rows ! i) \<and>
        file_names ds ! i = rows ! i ! 0 \<and>
        labels ds ! i = rows ! i ! 6 \<and>
        folders ds ! i = rows ! i ! 5 \<and>
        fst (getitem ds load (int i)) =
          (case rows ! i ! 0 of
             CInt k \<Rightarrow> Inl TypeError
           | CStr name \<Rightarrow>
               (case load (fp @ ''fold'' @ str (rows ! i ! 5) @ ''/'' @ name) of
                  Inl e \<Rightarrow> Inl e
                | Inr sound \<Rightarrow>
                    Inr ([slice_step 5 (spec_padded_prefix (mix (fst sound)))], rows ! i ! 6))))"
proof -
  define rows where "rows = filter (\<lambda>row. row ! 5 \<in> set fl) csvData"
  note ds = init_Inr [OF assms, folded rows_def]
  have len: "fst (len ds) = length rows"
    by (subst ds) (simp add: len_def)
  have fields: "file_names ds = map (\<lambda>row. row ! 0) rows"
    "labels ds = map (\<lambda>row. row ! 6) rows" "folders ds = map (\<lambda>row. row ! 5) rows"
    "file_path ds = fp" "mixer ds = mix"
    by (subst ds, simp)+
  have per_row: "6 < length (rows ! i) \<and>
        file_names ds ! i = rows ! i ! 0 \<and>
        labels ds ! i = rows ! i ! 6 \<and>
        folders ds ! i = rows ! i ! 5 \<and>
        fst (getitem ds load (int i)) =
          (case rows ! i ! 0 of
             CInt k \<Rightarrow> Inl TypeError
           | CStr name \<Rightarrow>
               (case load (fp @ ''fold'' @ str (rows ! i ! 5) @ ''/'' @ name) of
                  Inl e \<Rightarrow> Inl e
                | Inr sound \<Rightarrow>
                    Inr ([slice_step 5 (spec_padded_prefix (mix (fst sound)))], rows ! i ! 6)))"
    if i: "i < fst (len ds)" for i
  proof -
    from i len have il: "i < length rows" by simp
    then have "rows ! i \<in> set rows" by simp
    then have mem: "rows ! i \<in> set csvData" and fold: "rows ! i ! 5 \<in> set fl"
      by (simp_all add: rows_def)
    from init_rows [OF assms mem] fold have "6 < length (rows ! i)" by simp
    moreover have "0 \<le> int i" "int i < int (fst (len ds))" using i by simp_all
    from getitem_in_range [OF assms this, of load]
    have "fst (getitem ds load (int i)) =
          (case rows ! i ! 0 of
             CInt k \<Rightarrow> Inl TypeError
           | CStr name \<Rightarrow>
               (case load (fp @ ''fold'' @ str (rows ! i ! 5) @ ''/'' @ name) of
                  Inl e \<Rightarrow> Inl e
                | Inr sound \<Rightarrow>
                    Inr ([slice_step 5 (spec_padded_prefix (mix (fst sound)))], rows ! i ! 6)))"
      using il by (simp add: fields cong: cell.case_cong sum.case_cong)
    ultimately show ?thesis using il by (simp add: fields)
  qed
  from len per_row show ?thesis
    unfolding Let_def rows_def [symmetric] by (simp add: fields)
qed

theorem init_invariant_witness:
  "length (file_names \<lparr> file_names = [CStr ''a.wav''], labels = [CInt 3], folders = [CInt 1],
             file_path = ''./audio/'', mixer = (id :: int list \<Rightarrow> int list),
             folderList = [CInt 1] \<rparr>) = 1 \<and>
   fst (getitem \<lparr> file_names = [CStr ''a.wav''], labels = [CInt 3], folders = [CInt 1],
             file_path = ''./audio/'', mixer = (id :: int list \<Rightarrow> int list),
             folderList = [CInt 1] \<rparr>
           (\<lambda>p. if p = ''./audio/fold1/a.wav'' then Inr ([4, -2, 6], 44100)
                else Inl LoadError) 0)
     = Inr ([slice_step 5 (spec_padded_prefix [4, -2, 6])], CInt 3)"
  using init_invariant [OF example_init,
      of "\<lambda>p. if p = ''./audio/fold1/a.wav'' then Inr ([4, -2, 6], 44100) else Inl LoadError"]
  by (simp add: Let_def len_def str_int_1)

text \<open>
  C5, as stated: construction succeeds on every table with at least six columns. It does
  not: the class label is read from column index 6, the seventh column, so a six-column
  table with a row in the folder list raises \<^verbatim>\<open>IndexError\<close>.
\<close>

theorem init_six_columns_counterexample:
  "map length [[CStr ''a.wav'', CInt 7, CInt 0, CInt 4, CInt 1, CInt 1]] = [6] \<and>
   init [[CStr ''a.wav'', CInt 7, CInt 0, CInt 4, CInt 1, CInt 1]] ''./audio/'' [CInt 1]
     (id :: int list \<Rightarrow> int list) = Inl IndexError"
  by (simp add: init_def iloc_def upt_rec)

text \<open>
  C5, amended: on every table whose rows have at least seven cells construction succeeds;
  it keeps, for each row whose fold (column index 5) is in the folder list, the file name
  from column index 0, the label from column index 6 and the fold from column index 5, and
  the result is the same when every row is cut to its first seven cells.
\<close>

theorem init_seven_columns:
  assumes "\<forall>row \<in> set csvData. 7 \<le> length row"
  shows "init csvData fp fl mix =
           Inr \<lparr> file_names = map (\<lambda>row. row ! 0) (filter (\<lambda>row. row ! 5 \<in> set fl) csvData),
                 labels = map (\<lambda>row. row ! 6) (filter (\<lambda>row. row ! 5 \<in> set fl) csvData),
                 folders = map (\<lambda>row. row ! 5) (filter (\<lambda>row. row ! 5 \<in> set fl) csvData),
                 file_path = fp, mixer = mix, folderList = fl \<rparr> \<and>
         init (map (take 7) csvData) fp fl mix = init csvData fp fl mix"
proof -
  from init_total [OF assms] obtain ds where ds: "init csvData fp fl mix = Inr ds"
    by blast
  have "\<forall>row \<in> set (map (take 7) csvData). 7 \<le> length row"
    using assms by simp
  from init_total [OF this] obtain ds' where ds': "init (map (take 7) csvData) fp fl mix = Inr ds'"
    by blast
  have "ds' = ds"
    by (subst init_Inr [OF ds], subst init_Inr [OF ds'])
       (simp add: filter_map comp_def)
  with ds ds' init_Inr [OF ds] show ?thesis by simp
qed

theorem init_seven_columns_witness:
  "map length
     [[CStr ''a.wav'', CInt 7, CInt 0, CInt 4, CInt 1, CInt 1, CInt 3, CStr ''dog_bark''],
      [CStr ''b.wav'', CInt 8, CInt 0, CInt 4, CInt 1, CInt 2, CInt 9, CStr ''street_music'']]
     = [8, 8] \<and>
   init (map (take 7)
        [[CStr ''a.wav'', CInt 7, CInt 0, CInt 4, CInt 1, CInt 1, CInt 3, CStr ''dog_bark''],
         [CStr ''b.wav'', CInt 8, CInt 0, CInt 4, CInt 1, CInt 2, CInt 9, CStr ''street_music'']])
       ''./audio/'' [CInt 1] (id :: int list \<Rightarrow> int list)
     = Inr \<lparr> file_names = [CStr ''a.wav''], labels = [CInt 3], folders = [CInt 1],
             file_path = ''./audio/'', mixer = id, folderList = [CInt 1] \<rparr>"
proof -
  have h: "\<forall>row \<in> set [[CStr ''a.wav'', CInt 7, CInt 0, CInt 4, CInt 1, CInt 1, CInt 3, CStr ''dog_bark''],
         [CStr ''b.wav'', CInt 8, CInt 0, CInt 4, CInt 1, CInt 2, CInt 9, CStr ''street_music'']].
      7 \<le> length row"
    by simp
  from init_seven_columns [OF h, of "''./audio/''" "[CInt 1]" "id :: int list \<Rightarrow> int list"]
  have "init (map (take 7)
        [[CStr ''a.wav'', CInt 7, CInt 0, CInt 4, CInt 1, CInt 1, CInt 3, CStr ''dog_bark''],
         [CStr ''b.wav'', CInt 8, CInt 0, CInt 4, CInt 1, CInt 2, CInt 9, CStr ''street_music'']])
       ''./audio/'' [CInt 1] (id :: int list \<Rightarrow> int list)
     = init [[CStr ''a.wav'', CInt 7, CInt 0, CInt 4, CInt 1, CInt 1, CInt 3, CStr ''dog_bark''],
         [CStr ''b.wav'', CInt 8, CInt 0, CInt 4, CInt 1, CInt 2, CInt 9, CStr ''street_music'']]
       ''./audio/'' [CInt 1] id"
    by blast
  with example_init h show ?thesis by simp
qed

text \<open>
  C4, as stated: on an empty test set (total count zero) the division is performed and
  the result is well defined. It is not: with no batches and a dataset of length zero
  \<^verbatim>\<open>test\<close> raises \<^verbatim>\<open>ZeroDivisionError\<close> and reports nothing.
\<close>

theorem test_empty_counterexample:
  "test (id :: nat \<Rightarrow> nat) [] 0 = Inl ZeroDivisionError"
  by (simp add: test_def)

text \<open>
  C4, amended: \<^verbatim>\<open>test\<close> raises \<^verbatim>\<open>ZeroDivisionError\<close> when the test set has length zero;
  otherwise it reports the number of samples whose prediction equals the target, the
  length of the test set, and 100 times their quotient. When the test set is not empty,
  the batches hold all of it and every prediction equals its target, the percentage is 100.
\<close>

theorem test_reports_accuracy:
  "test predict test_loader dataset_len =
     (if dataset_len = 0 then Inl ZeroDivisionError
      else Inr (length (filter (\<lambda>(data, target). predict data = target) (concat test_loader)),
                dataset_len,
                100 * real (length (filter (\<lambda>(data, target). predict data = target)
                                     (concat test_loader))) / real dataset_len)) \<and>
   (0 < dataset_len \<and> dataset_len = length (concat test_loader) \<and>
    (\<forall>(data, target) \<in> set (concat test_loader). predict data = target)
      \<longrightarrow> test predict test_loader dataset_len = Inr (dataset_len, dataset_len, 100))"
proof -
  have a: "test_loop predict test_loader 0 =
      length (filter (\<lambda>(data, target). predict data = target) (concat test_loader))"
    by (simp add: test_loop_count)
  have b: "filter (\<lambda>(data, target). predict data = target) (concat test_loader) = concat test_loader"
    if "\<forall>(data, target) \<in> set (concat test_loader). predict data = target"
    using that by (intro filter_True) auto
  show ?thesis
    using a b by (auto simp: test_def Let_def)
qed

theorem test_reports_accuracy_witness:
  "test (id :: nat \<Rightarrow> nat) [[(1, 1), (2, 2)], [(0, 0)]] 3 = Inr (3, 3, 100) \<and>
   test (id :: nat \<Rightarrow> nat) [[(1, 1), (2, 5)], [(0, 0), (7, 7)]] 4 = Inr (3, 4, 75)"
proof -
  have "0 < (3::nat) \<and> 3 = length (concat [[(1, 1), (2, 2)], [(0::nat, 0::nat)]]) \<and>
    (\<forall>(data, target) \<in> set (concat [[(1, 1), (2, 2)], [(0::nat, 0::nat)]]). id data = target)"
    by simp
  with test_reports_accuracy [of id "[[(1, 1), (2, 2)], [(0, 0)]]" 3]
  have "test (id :: nat \<Rightarrow> nat) [[(1, 1), (2, 2)], [(0, 0)]] 3 = Inr (3, 3, 100)"
    by blast
  moreover from test_reports_accuracy [of id "[[(1, 1), (2, 5)], [(0, 0), (7, 7)]]" 4]
  have "test (id :: nat \<Rightarrow> nat) [[(1, 1), (2, 5)], [(0, 0), (7, 7)]] 4 = Inr (3, 4, 75)"
    by simp
  ultimately show ?thesis by blast
qed



end
